theory Spec2Isabelle
  imports Main
begin

section \<open>Data model of graph\_transformation.py\<close>

text \<open>The closed set of node type tags (the \<open>NodeType\<close> enumeration of the source).\<close>

datatype NodeType =
  Router | Interface | Label | Rule | PushAction | SwapAction | PopAction
  | Query | QueryAtom | Any | OneOrMore | ZeroOrMore

text \<open>
  Domain objects of the network model. Python objects used as graph keys are compared by
  identity; an object is modelled as a value that carries its identity (a number) next to
  its fields, so two values are the same key exactly when they are the same object.
\<close>

text \<open>Modelled from the spec: the label class of the network-model library is not part of
  the sources. Labels have value identity; \<open>NoLabel\<close> is the "no label" sentinel.\<close>

datatype label = NoLabel | model_Label string

text \<open>Modelled from the spec: \<open>xml.get_label\<close> of the network-model library is missing;
  it resolves a name to the label of that value and the absent name to the sentinel.\<close>

fun get_label :: "string option \<Rightarrow> label" where
  "get_label None = NoLabel"
| "get_label (Some s) = model_Label s"

text \<open>Modelled from the spec: the \<open>name\<close> attribute of a label object; the sentinel's
  display name is taken as \<open>none\<close>.\<close>

fun label_name :: "label \<Rightarrow> string" where
  "label_name NoLabel = ''none''"
| "label_name (model_Label s) = s"

record iface =
  iface_id :: nat
  iface_name :: string

record router =
  router_id :: nat
  router_name :: string
  interfaces :: "iface list"

record link =
  link_from :: iface
  link_to :: iface

datatype action =
  model_PushAction nat label
| model_SwapAction nat label
| model_PopAction nat
| model_OtherAction nat

record rule =
  rule_id :: nat
  rule_from :: iface
  rule_label :: label
  rule_actions :: "action list"
  rule_to :: iface

record te_group =
  rules :: "rule list"

record destination =
  te_groups :: "te_group list"

record table =
  destinations :: "destination list"

record net =
  routers :: "router list"
  links :: "link list"
  collect_labels :: "label list"
  routingTables :: "(router \<times> table) list"

text \<open>The query syntax tree, as the external parser hands it over. Every syntax object
  carries its identity.\<close>

datatype quantifier = AZeroOrMoreQuantifier | AOneOrMoreQuantifier | AOtherQuantifier

datatype atom =
  ASimpleAtom nat string
| AAnyAtom nat
| AQuantifiedAtom nat atom quantifier
| AOtherAtom nat

record query_ast =
  getConstructing :: "atom list option"
  getNetwork :: "atom list"
  getDestructing :: "atom list option"

text \<open>Keys of graph nodes: a domain object, a label value, a syntax object, the
  \<open>NodeType.Query\<close> member, or a plain string.\<close>

datatype key =
  KRouter router
| KIface iface
| KLabel label
| KRule rule
| KAction action
| KAtom atom
| KQuery
| KStr string

record attrs =
  ntype :: "NodeType option"
  nlabel :: "string option"
  kattr :: "int option"

text \<open>An undirected simple graph: nodes with their attributes and edges, both in
  insertion order.\<close>

record graph =
  nodes :: "(key \<times> attrs) list"
  edges :: "(key \<times> key) list"

datatype error =
  UnknownAtomType | CaseNotCovered | UnknownQuantifier | UnknownAction | UnknownAtom
  | AssertionError | IndexError | TypeError

text \<open>The value of \<open>last\<close> / \<open>lastnode\<close>: one node, or a Python list of nodes.\<close>

datatype noderef = Single key | Multi "key list"

section \<open>Graph primitives\<close>

definition empty_graph :: graph where
  "empty_graph = \<lparr>nodes = [], edges = []\<rparr>"

definition no_attrs :: attrs where
  "no_attrs = \<lparr>ntype = None, nlabel = None, kattr = None\<rparr>"

definition node_attrs :: "graph \<Rightarrow> key \<Rightarrow> attrs option" where
  "node_attrs G n = map_of (nodes G) n"

definition has_node :: "graph \<Rightarrow> key \<Rightarrow> bool" where
  "has_node G n = (node_attrs G n \<noteq> None)"

definition node_type :: "graph \<Rightarrow> key \<Rightarrow> NodeType option" where
  "node_type G n = (case node_attrs G n of None \<Rightarrow> None | Some a \<Rightarrow> ntype a)"

definition node_label :: "graph \<Rightarrow> key \<Rightarrow> string option" where
  "node_label G n = (case node_attrs G n of None \<Rightarrow> None | Some a \<Rightarrow> nlabel a)"

fun upd_node :: "key \<Rightarrow> attrs \<Rightarrow> (key \<times> attrs) list \<Rightarrow> (key \<times> attrs) list" where
  "upd_node n a [] = [(n, a)]"
| "upd_node n a ((m, b) # ps) = (if m = n then (n, a) # ps else (m, b) # upd_node n a ps)"

text \<open>\<open>G.add_node(n, ntype=t, nlabel=l)\<close>: a new node gets the attributes, an existing one
  has them overwritten (its other attributes stay).\<close>

definition add_node :: "key \<Rightarrow> NodeType \<Rightarrow> string \<Rightarrow> graph \<Rightarrow> graph" where
  "add_node n t l G =
     (let old = (case node_attrs G n of None \<Rightarrow> no_attrs | Some a \<Rightarrow> a)
      in G\<lparr>nodes := upd_node n (old\<lparr>ntype := Some t, nlabel := Some l\<rparr>) (nodes G)\<rparr>)"

definition add_node_k :: "key \<Rightarrow> NodeType \<Rightarrow> string \<Rightarrow> int \<Rightarrow> graph \<Rightarrow> graph" where
  "add_node_k n t l k G =
     (let old = (case node_attrs G n of None \<Rightarrow> no_attrs | Some a \<Rightarrow> a)
      in G\<lparr>nodes := upd_node n (old\<lparr>ntype := Some t, nlabel := Some l, kattr := Some k\<rparr>) (nodes G)\<rparr>)"

text \<open>An endpoint that is not yet a node is created without attributes.\<close>

definition touch_node :: "key \<Rightarrow> graph \<Rightarrow> graph" where
  "touch_node n G = (if has_node G n then G else G\<lparr>nodes := nodes G @ [(n, no_attrs)]\<rparr>)"

definition has_edge :: "graph \<Rightarrow> key \<Rightarrow> key \<Rightarrow> bool" where
  "has_edge G u v = ((u, v) \<in> set (edges G) \<or> (v, u) \<in> set (edges G))"

text \<open>\<open>G.add_edge(u, v)\<close> on an undirected simple graph: both endpoints become nodes, and
  an edge that is already there (in either direction) is not added again.\<close>

definition add_edge :: "key \<Rightarrow> key \<Rightarrow> graph \<Rightarrow> graph" where
  "add_edge u v G =
     (let G1 = touch_node v (touch_node u G)
      in if has_edge G1 u v then G1 else G1\<lparr>edges := edges G1 @ [(u, v)]\<rparr>)"

text \<open>\<open>G.add_edge(last, v)\<close> where \<open>last\<close> may be a list: a list is not hashable.\<close>

fun add_edge_ref :: "noderef \<Rightarrow> key \<Rightarrow> graph \<Rightarrow> error + graph" where
  "add_edge_ref (Single u) v G = Inr (add_edge u v G)"
| "add_edge_ref (Multi us) v G = Inl TypeError"

text \<open>\<open>for n in ns: G.add_edge(n, v)\<close>\<close>

fun add_edges_from :: "key list \<Rightarrow> key \<Rightarrow> graph \<Rightarrow> graph" where
  "add_edges_from [] v G = G"
| "add_edges_from (n # ns) v G = add_edges_from ns v (add_edge n v G)"

text \<open>The edges of \<open>G\<close> that are incident to \<open>n\<close>.\<close>

definition incident :: "graph \<Rightarrow> key \<Rightarrow> (key \<times> key) list" where
  "incident G n = filter (\<lambda>e. fst e = n \<or> snd e = n) (edges G)"

section \<open>Strings\<close>

definition is_space :: "char \<Rightarrow> bool" where
  "is_space c = (c \<in> set [CHR '' '', CHR 0x09, CHR 0x0A, CHR 0x0B, CHR 0x0C, CHR 0x0D,
                          CHR 0x1C, CHR 0x1D, CHR 0x1E, CHR 0x1F, CHR 0x85, CHR 0xA0])"

text \<open>\<open>str.strip()\<close>\<close>

definition strip :: "string \<Rightarrow> string" where
  "strip s = rev (dropWhile is_space (rev (dropWhile is_space s)))"

definition digit_char :: "nat \<Rightarrow> char" where
  "digit_char d = char_of (48 + d)"

text \<open>The decimal numeral of a number, as an f-string prints it.\<close>

fun str_nat :: "nat \<Rightarrow> string" where
  "str_nat n = (if n < 10 then [digit_char n] else str_nat (n div 10) @ [digit_char (n mod 10)])"

declare str_nat.simps [simp del]

section \<open>Topology and forwarding tables\<close>

fun add_interfaces :: "router \<Rightarrow> iface list \<Rightarrow> graph \<Rightarrow> graph" where
  "add_interfaces rtr [] G = G"
| "add_interfaces rtr (ifc # ifcs) G =
     add_interfaces rtr ifcs
       (add_edge (KRouter rtr) (KIface ifc)
          (add_node (KIface ifc) Interface
             (''intf:'' @ router_name rtr @ '':'' @ iface_name ifc) G))"

text \<open>The first loop of \<open>mpls2graph\<close>; it also fills the dictionary \<open>name2router\<close>.\<close>

fun add_routers ::
  "router list \<Rightarrow> (string \<rightharpoonup> router) \<times> graph \<Rightarrow> (string \<rightharpoonup> router) \<times> graph" where
  "add_routers [] (n2r, G) = (n2r, G)"
| "add_routers (rtr # rtrs) (n2r, G) =
     add_routers rtrs
       (n2r(router_name rtr \<mapsto> rtr),
        add_interfaces rtr (interfaces rtr)
          (add_node (KRouter rtr) Router (''router:'' @ router_name rtr) G))"

fun add_links :: "link list \<Rightarrow> graph \<Rightarrow> graph" where
  "add_links [] G = G"
| "add_links (lnk # lnks) G =
     add_links lnks (add_edge (KIface (link_from lnk)) (KIface (link_to lnk)) G)"

fun add_labels :: "label list \<Rightarrow> graph \<Rightarrow> graph" where
  "add_labels [] G = G"
| "add_labels (lbl # lbls) G =
     add_labels lbls (add_node (KLabel lbl) Label (''label:'' @ label_name lbl) G)"

text \<open>The loop over \<open>rule.actions\<close>; \<open>j\<close> is the position and \<open>last\<close> the previous node of
  the chain. It returns the graph and the final \<open>last\<close>.\<close>

fun add_actions ::
  "string \<Rightarrow> nat \<Rightarrow> nat \<Rightarrow> action list \<Rightarrow> key \<Rightarrow> graph \<Rightarrow> error + (graph \<times> key)" where
  "add_actions pre j i [] lst G = Inr (G, lst)"
| "add_actions pre j i (model_PushAction a l # acts) lst G =
     add_actions pre (Suc j) i acts (KAction (model_PushAction a l))
       (add_edge lst (KAction (model_PushAction a l))
          (add_edge (KAction (model_PushAction a l)) (KLabel l)
             (add_node (KAction (model_PushAction a l)) PushAction
                (pre @ '':rule'' @ str_nat i @ '':action'' @ str_nat j @ '':PUSH'') G)))"
| "add_actions pre j i (model_SwapAction a l # acts) lst G =
     add_actions pre (Suc j) i acts (KAction (model_SwapAction a l))
       (add_edge lst (KAction (model_SwapAction a l))
          (add_edge (KAction (model_SwapAction a l)) (KLabel l)
             (add_node (KAction (model_SwapAction a l)) SwapAction
                (pre @ '':rule'' @ str_nat i @ '':action'' @ str_nat j @ '':SWAP'') G)))"
| "add_actions pre j i (model_PopAction a # acts) lst G =
     add_actions pre (Suc j) i acts (KAction (model_PopAction a))
       (add_edge lst (KAction (model_PopAction a))
          (add_node (KAction (model_PopAction a)) PopAction
             (pre @ '':rule'' @ str_nat i @ '':action'' @ str_nat j @ '':POP'') G))"
| "add_actions pre j i (model_OtherAction a # acts) lst G = Inl UnknownAction"

text \<open>\<open>dest.te_groups[0].rules[0]\<close>\<close>

fun first_rule :: "destination \<Rightarrow> error + rule" where
  "first_rule dest =
     (case te_groups dest of
        [] \<Rightarrow> Inl IndexError
      | g # _ \<Rightarrow> (case rules g of [] \<Rightarrow> Inl IndexError | r # _ \<Rightarrow> Inr r))"

text \<open>The body of the loop over the destinations for one rule: the Rule node, its edges to
  the input interface and the label, the action chain and the edge to the output
  interface.\<close>

definition add_rule :: "string \<Rightarrow> nat \<Rightarrow> rule \<Rightarrow> graph \<Rightarrow> error + graph" where
  "add_rule rname i r G =
     (let G1 = add_node (KRule r) Rule (rname @ '':rule'' @ str_nat i) G;
          G2 = add_edge (KRule r) (KIface (rule_from r)) G1;
          G3 = (if rule_label r \<noteq> NoLabel then add_edge (KRule r) (KLabel (rule_label r)) G2
                else G2)
      in case add_actions rname 0 i (rule_actions r) (KRule r) G3 of
           Inl e \<Rightarrow> Inl e
         | Inr (G4, lst) \<Rightarrow> Inr (add_edge lst (KIface (rule_to r)) G4))"

fun add_destinations :: "string \<Rightarrow> nat \<Rightarrow> destination list \<Rightarrow> graph \<Rightarrow> error + graph" where
  "add_destinations rname i [] G = Inr G"
| "add_destinations rname i (dest # dests) G =
     (case first_rule dest of
        Inl e \<Rightarrow> Inl e
      | Inr r \<Rightarrow>
          (case add_rule rname i r G of
             Inl e \<Rightarrow> Inl e
           | Inr G' \<Rightarrow> add_destinations rname (Suc i) dests G'))"

fun add_tables :: "(router \<times> table) list \<Rightarrow> graph \<Rightarrow> error + graph" where
  "add_tables [] G = Inr G"
| "add_tables ((rtr, tbl) # rest) G =
     (case add_destinations (router_name rtr) 0 (destinations tbl) G of
        Inl e \<Rightarrow> Inl e
      | Inr G' \<Rightarrow> add_tables rest G')"

section \<open>The label-pattern encoder\<close>

text \<open>The label an atom symbol names: \<open>xml.get_label(str(symb).strip())\<close>\<close>

definition symbol_label :: "string \<Rightarrow> label" where
  "symbol_label s = get_label (Some (strip s))"

fun ensure_atoms :: "atom list \<Rightarrow> graph \<Rightarrow> graph" where
  "ensure_atoms [] G = G"
| "ensure_atoms (ASimpleAtom i s # atoms) G =
     ensure_atoms atoms
       (if has_node G (KLabel (symbol_label s)) then G
        else add_node (KLabel (symbol_label s)) Label
               (''label:'' @ label_name (symbol_label s)) G)"
| "ensure_atoms (AQuantifiedAtom i (ASimpleAtom i' s) q # atoms) G =
     ensure_atoms atoms
       (if has_node G (KLabel (symbol_label s)) then G
        else add_node (KLabel (symbol_label s)) Label
               (''label:'' @ label_name (symbol_label s)) G)"
| "ensure_atoms (a # atoms) G = ensure_atoms atoms G"

fun ensure_label_nodes :: "graph \<Rightarrow> atom list option \<Rightarrow> graph" where
  "ensure_label_nodes G None = G"
| "ensure_label_nodes G (Some atoms) = ensure_atoms atoms G"

fun atom_label_to_node :: "graph \<Rightarrow> atom \<Rightarrow> error + (graph \<times> key)" where
  "atom_label_to_node G (ASimpleAtom i s) =
     (if \<not> has_node G (KLabel (symbol_label s)) then Inl AssertionError
      else Inr (add_edge (KAtom (ASimpleAtom i s)) (KLabel (symbol_label s))
                  (add_node (KAtom (ASimpleAtom i s)) QueryAtom
                     (''atom:label:'' @ label_name (symbol_label s)) G),
                KAtom (ASimpleAtom i s)))"
| "atom_label_to_node G (AAnyAtom i) =
     Inr (add_node (KAtom (AAnyAtom i)) Label ''atom:any'' G, KAtom (AAnyAtom i))"
| "atom_label_to_node G a = Inl UnknownAtomType"

fun is_simple :: "atom \<Rightarrow> bool" where
  "is_simple (ASimpleAtom i s) = True"
| "is_simple a = False"

fun is_any :: "atom \<Rightarrow> bool" where
  "is_any (AAnyAtom i) = True"
| "is_any a = False"

fun last_is_simple :: "atom option \<Rightarrow> bool" where
  "last_is_simple None = False"
| "last_is_simple (Some a) = is_simple a"

text \<open>The loop state of \<open>build_labels_graph_repr\<close>: the graph, \<open>lastnode\<close>, \<open>par_nodes\<close>
  and \<open>branch_next\<close>. The previous atom \<open>lastatom\<close> is passed next to it.\<close>

type_synonym bstate = "graph \<times> noderef \<times> key list \<times> bool"

text \<open>One iteration of the loop over the atoms.\<close>

fun build_step :: "atom option \<Rightarrow> atom \<Rightarrow> bstate \<Rightarrow> error + bstate" where
  "build_step lastatom (AQuantifiedAtom i inner q) (G, lastnode, par_nodes, branch_next) =
     (if last_is_simple lastatom then Inl CaseNotCovered
      else if q = AZeroOrMoreQuantifier \<and> is_any inner then
        (case add_edge_ref lastnode (KAtom (AQuantifiedAtom i inner q))
                (add_node (KAtom (AQuantifiedAtom i inner q)) ZeroOrMore ''atom:label:.*'' G) of
           Inl e \<Rightarrow> Inl e
         | Inr G' \<Rightarrow> Inr (G', Single (KAtom (AQuantifiedAtom i inner q)), par_nodes, branch_next))
      else if q = AOneOrMoreQuantifier \<and> is_any inner then
        (case add_edge_ref lastnode (KAtom (AQuantifiedAtom i inner q))
                (add_node (KAtom (AQuantifiedAtom i inner q)) OneOrMore ''atom:label:.+'' G) of
           Inl e \<Rightarrow> Inl e
         | Inr G' \<Rightarrow> Inr (G', Single (KAtom (AQuantifiedAtom i inner q)), par_nodes, branch_next))
      else if q = AOneOrMoreQuantifier then
        (case atom_label_to_node G inner of
           Inl e \<Rightarrow> Inl e
         | Inr (G1, node) \<Rightarrow>
             (case add_edge_ref lastnode node G1 of
                Inl e \<Rightarrow> Inl e
              | Inr G' \<Rightarrow> Inr (G', lastnode, par_nodes @ [node], True)))
      else Inl UnknownQuantifier)"
| "build_step lastatom atom (G, lastnode, par_nodes, branch_next) =
     (case atom_label_to_node G atom of
        Inl e \<Rightarrow> Inl e
      | Inr (G1, node) \<Rightarrow>
          (if branch_next then
             (case add_edge_ref lastnode node G1 of
                Inl e \<Rightarrow> Inl e
              | Inr G' \<Rightarrow> Inr (G', lastnode, par_nodes @ [node], False))
           else if par_nodes \<noteq> [] then
             Inr (add_edges_from par_nodes node G1, Single node, [], branch_next)
           else
             (case add_edge_ref lastnode node G1 of
                Inl e \<Rightarrow> Inl e
              | Inr G' \<Rightarrow> Inr (G', Single node, par_nodes, branch_next))))"

fun build_loop :: "atom option \<Rightarrow> atom list \<Rightarrow> bstate \<Rightarrow> error + bstate" where
  "build_loop lastatom [] st = Inr st"
| "build_loop lastatom (atom # atoms) st =
     (case build_step lastatom atom st of
        Inl e \<Rightarrow> Inl e
      | Inr st' \<Rightarrow> build_loop (Some atom) atoms st')"

text \<open>\<open>build_labels_graph_repr(G, lastnode, st)\<close>: the graph and the returned value.\<close>

fun build_labels_graph_repr ::
  "graph \<Rightarrow> noderef \<Rightarrow> atom list option \<Rightarrow> error + (graph \<times> noderef)" where
  "build_labels_graph_repr G lastnode None =
     (case add_edge_ref lastnode (KStr ''empty'')
             (add_node (KStr ''empty'') Label ''label:empty'' G) of
        Inl e \<Rightarrow> Inl e
      | Inr G' \<Rightarrow> Inr (G', Single (KStr ''empty'')))"
| "build_labels_graph_repr G lastnode (Some atoms) =
     (case build_loop None atoms (G, lastnode, [], False) of
        Inl e \<Rightarrow> Inl e
      | Inr (G', lastnode', par_nodes, branch_next) \<Rightarrow>
          Inr (G', if par_nodes \<noteq> [] then Multi par_nodes else lastnode'))"

section \<open>The router-path encoder and \<open>mpls2graph\<close>\<close>

text \<open>\<open>if isinstance(last, list): for l in last: G.add_edge(l, atom)
  else: G.add_edge(last, atom)\<close>\<close>

fun link_last :: "noderef \<Rightarrow> key \<Rightarrow> graph \<Rightarrow> graph" where
  "link_last (Multi ls) n G = add_edges_from ls n G"
| "link_last (Single l) n G = add_edge l n G"

text \<open>One iteration of the loop over the atoms of the router path.\<close>

fun path_step ::
  "(string \<rightharpoonup> router) \<Rightarrow> atom \<Rightarrow> graph \<times> noderef \<Rightarrow> error + (graph \<times> noderef)" where
  "path_step n2r (ASimpleAtom i s) (G, lst) =
     (let atom = KAtom (ASimpleAtom i s);
          rtr = strip s;
          G1 = add_node atom QueryAtom (''atom:router:'' @ rtr) G
      in case n2r rtr of
           None \<Rightarrow>
             Inr (add_edge atom (KStr rtr) (link_last lst atom (add_node (KStr rtr) Router rtr G1)),
                  Single atom)
         | Some r \<Rightarrow>
             Inr (add_edge atom (KRouter r) (link_last lst atom G1), Single atom))"
| "path_step n2r (AQuantifiedAtom i inner q) (G, lst) =
     (let atom = KAtom (AQuantifiedAtom i inner q)
      in if q = AOneOrMoreQuantifier \<and> is_any inner then
           Inr (link_last lst atom (add_node atom ZeroOrMore ''atom:router:.*'' G), Single atom)
         else if q = AZeroOrMoreQuantifier \<and> is_any inner then
           Inr (link_last lst atom (add_node atom OneOrMore ''atom:router:.+'' G), Single atom)
         else Inl UnknownAtom)"
| "path_step n2r (AAnyAtom i) (G, lst) =
     Inr (link_last lst (KAtom (AAnyAtom i)) (add_node (KAtom (AAnyAtom i)) Any ''router:.'' G),
          Single (KAtom (AAnyAtom i)))"
| "path_step n2r (AOtherAtom i) (G, lst) = Inl UnknownAtomType"

fun path_loop ::
  "(string \<rightharpoonup> router) \<Rightarrow> atom list \<Rightarrow> graph \<times> noderef \<Rightarrow> error + (graph \<times> noderef)" where
  "path_loop n2r [] st = Inr st"
| "path_loop n2r (atom # atoms) st =
     (case path_step n2r atom st of
        Inl e \<Rightarrow> Inl e
      | Inr st' \<Rightarrow> path_loop n2r atoms st')"

text \<open>The graph before the query is encoded: topology, labels and forwarding rules.\<close>

definition network_graph :: "net \<Rightarrow> (string \<rightharpoonup> router) \<times> (error + graph)" where
  "network_graph nt =
     (case add_routers (routers nt) (Map.empty, empty_graph) of
        (n2r, G1) \<Rightarrow>
          (n2r,
           add_tables (routingTables nt)
             (add_labels (collect_labels nt)
                (add_node (KLabel (get_label None)) Label ''label:none''
                   (add_links (links nt) G1)))))"

text \<open>The query part of \<open>mpls2graph\<close>, from the registration of the query's labels on. The
  parser is external: the function takes the parsed query.\<close>

definition query_graph ::
  "(string \<rightharpoonup> router) \<Rightarrow> query_ast \<Rightarrow> int \<Rightarrow> graph \<Rightarrow> error + graph" where
  "query_graph n2r q k G =
     (let G1 = ensure_label_nodes (ensure_label_nodes G (getConstructing q)) (getDestructing q);
          G2 = add_node_k KQuery Query ''query'' k G1
      in case build_labels_graph_repr G2 (Single KQuery) (getConstructing q) of
           Inl e \<Rightarrow> Inl e
         | Inr (G3, lst) \<Rightarrow>
             (case path_loop n2r (getNetwork q) (G3, lst) of
                Inl e \<Rightarrow> Inl e
              | Inr (G4, lst') \<Rightarrow>
                  (case build_labels_graph_repr G4 lst' (getDestructing q) of
                     Inl e \<Rightarrow> Inl e
                   | Inr (G5, ret) \<Rightarrow> Inr G5)))"

definition mpls2graph :: "net \<Rightarrow> query_ast \<Rightarrow> int \<Rightarrow> error + graph" where
  "mpls2graph nt q k =
     (case network_graph nt of
        (n2r, Inl e) \<Rightarrow> Inl e
      | (n2r, Inr G) \<Rightarrow> query_graph n2r q k G)"

text \<open>The nodes a value of \<open>last\<close> stands for.\<close>

fun ref_nodes :: "noderef \<Rightarrow> key list" where
  "ref_nodes (Single n) = [n]"
| "ref_nodes (Multi ns) = ns"

section \<open>Concrete inputs\<close>

abbreviation any_plus :: "nat \<Rightarrow> nat \<Rightarrow> atom" where
  "any_plus i j \<equiv> AQuantifiedAtom i (AAnyAtom j) AOneOrMoreQuantifier"

abbreviation any_star :: "nat \<Rightarrow> nat \<Rightarrow> atom" where
  "any_star i j \<equiv> AQuantifiedAtom i (AAnyAtom j) AZeroOrMoreQuantifier"

text \<open>A network of two routers: \<open>R1\<close> with interfaces \<open>i0\<close>, \<open>i1\<close> and \<open>R2\<close> with interface
  \<open>i0\<close>, one link from \<open>R1.i1\<close> to \<open>R2.i0\<close>, and one rule in the table of \<open>R1\<close>: on \<open>i0\<close>
  with label \<open>L1\<close>, swap to \<open>L2\<close>, out on \<open>i1\<close>.\<close>

definition ex_i0 :: iface where "ex_i0 = \<lparr>iface_id = 10, iface_name = ''i0''\<rparr>"
definition ex_i1 :: iface where "ex_i1 = \<lparr>iface_id = 11, iface_name = ''i1''\<rparr>"
definition ex_j0 :: iface where "ex_j0 = \<lparr>iface_id = 20, iface_name = ''i0''\<rparr>"

definition ex_R1 :: router where
  "ex_R1 = \<lparr>router_id = 1, router_name = ''R1'', interfaces = [ex_i0, ex_i1]\<rparr>"

definition ex_R2 :: router where
  "ex_R2 = \<lparr>router_id = 2, router_name = ''R2'', interfaces = [ex_j0]\<rparr>"

definition ex_rule :: rule where
  "ex_rule = \<lparr>rule_id = 100, rule_from = ex_i0, rule_label = model_Label ''L1'',
               rule_actions = [model_SwapAction 200 (model_Label ''L2'')], rule_to = ex_i1\<rparr>"

definition ex_net :: net where
  "ex_net = \<lparr>routers = [ex_R1, ex_R2],
              links = [\<lparr>link_from = ex_i1, link_to = ex_j0\<rparr>],
              collect_labels = [model_Label ''L1'', model_Label ''L2''],
              routingTables =
                [(ex_R1, \<lparr>destinations = [\<lparr>te_groups = [\<lparr>rules = [ex_rule]\<rparr>]\<rparr>]\<rparr>)]\<rparr>"

text \<open>A network without routers, and the graph of its sentinel label alone.\<close>

definition no_net :: net where
  "no_net = \<lparr>routers = [], links = [], collect_labels = [], routingTables = []\<rparr>"

text \<open>The query \<open><> R9 <>\<close>: one router name, which the empty network does not know.\<close>

definition unknown_query :: query_ast where
  "unknown_query =
     \<lparr>getConstructing = None, getNetwork = [ASimpleAtom 1 ''R9''], getDestructing = None\<rparr>"

text \<open>The query \<open><a b+> <>\<close>: a one-or-more-quantified label right after a plain label.\<close>

definition plus_after_plain_query :: query_ast where
  "plus_after_plain_query =
     \<lparr>getConstructing =
        Some [ASimpleAtom 1 ''a'', AQuantifiedAtom 2 (ASimpleAtom 3 ''b'') AOneOrMoreQuantifier],
      getNetwork = [], getDestructing = None\<rparr>"

text \<open>The query \<open><a .*> <>\<close>: a zero-or-more "any" right after a plain label.\<close>

definition star_after_plain_query :: query_ast where
  "star_after_plain_query =
     \<lparr>getConstructing = Some [ASimpleAtom 1 ''a'', any_star 2 3],
      getNetwork = [], getDestructing = None\<rparr>"

text \<open>The constructing pattern \<open>a+ b\<close>, the graph \<open>mpls2graph\<close> has built on the empty network
  when it starts to encode that pattern, and the query \<open><a+ b> R9 <>\<close>.\<close>

definition ab_pattern :: "atom list" where
  "ab_pattern =
     [AQuantifiedAtom 1 (ASimpleAtom 2 ''a'') AOneOrMoreQuantifier, ASimpleAtom 3 ''b'']"

definition ab_start :: graph where
  "ab_start =
     add_node_k KQuery Query ''query'' 0
       (ensure_label_nodes (add_node (KLabel (get_label None)) Label ''label:none'' empty_graph)
          (Some ab_pattern))"

definition ab_query :: query_ast where
  "ab_query =
     \<lparr>getConstructing = Some ab_pattern, getNetwork = [ASimpleAtom 4 ''R9''],
      getDestructing = None\<rparr>"

section \<open>Registration of the labels a pattern names\<close>

text \<open>The label an atom names, if it is a plain atom or a quantified plain atom, is a node
  of the graph.\<close>

fun atom_registered :: "graph \<Rightarrow> atom \<Rightarrow> bool" where
  "atom_registered G (ASimpleAtom i s) = has_node G (KLabel (symbol_label s))"
| "atom_registered G (AQuantifiedAtom i (ASimpleAtom i' s) q) =
     has_node G (KLabel (symbol_label s))"
| "atom_registered G a = True"

fun pattern_registered :: "graph \<Rightarrow> atom list option \<Rightarrow> bool" where
  "pattern_registered G None = True"
| "pattern_registered G (Some atoms) = list_all (atom_registered G) atoms"

text \<open>The query \<open><a+ b> R9 <c>\<close>.\<close>

definition abc_query :: query_ast where
  "abc_query =
     \<lparr>getConstructing = Some ab_pattern, getNetwork = [ASimpleAtom 4 ''R9''],
      getDestructing = Some [ASimpleAtom 5 ''c'']\<rparr>"

text \<open>The query \<open><> empty <.>\<close>: no constructing pattern, and a router name that happens to
  be the word \<open>empty\<close>, which the empty network does not know.\<close>

definition empty_name_query :: query_ast where
  "empty_name_query =
     \<lparr>getConstructing = None, getNetwork = [ASimpleAtom 1 ''empty''],
      getDestructing = Some [AAnyAtom 2]\<rparr>"

section \<open>Properties of the graph primitives\<close>

lemma map_of_upd_node: "map_of (upd_node n a ps) = (map_of ps)(n \<mapsto> a)"
  by (induction ps) (auto simp: fun_eq_iff)

lemma edges_add_node [simp]: "edges (add_node n t l G) = edges G"
  by (simp add: add_node_def Let_def)

lemma edges_add_node_k [simp]: "edges (add_node_k n t l k G) = edges G"
  by (simp add: add_node_k_def Let_def)

lemma node_attrs_add_node:
  "node_attrs (add_node n t l G) m =
     (if m = n then Some ((case node_attrs G n of None \<Rightarrow> no_attrs | Some a \<Rightarrow> a)
                            \<lparr>ntype := Some t, nlabel := Some l\<rparr>)
      else node_attrs G m)"
  by (simp add: add_node_def Let_def node_attrs_def map_of_upd_node)

lemma node_attrs_add_node_k:
  "node_attrs (add_node_k n t l k G) m =
     (if m = n then Some ((case node_attrs G n of None \<Rightarrow> no_attrs | Some a \<Rightarrow> a)
                            \<lparr>ntype := Some t, nlabel := Some l, kattr := Some k\<rparr>)
      else node_attrs G m)"
  by (simp add: add_node_k_def Let_def node_attrs_def map_of_upd_node)

lemma node_type_add_node [simp]:
  "node_type (add_node n t l G) m = (if m = n then Some t else node_type G m)"
  by (simp add: node_type_def node_attrs_add_node)

lemma node_label_add_node [simp]:
  "node_label (add_node n t l G) m = (if m = n then Some l else node_label G m)"
  by (simp add: node_label_def node_attrs_add_node)

lemma node_type_add_node_k [simp]:
  "node_type (add_node_k n t l k G) m = (if m = n then Some t else node_type G m)"
  by (simp add: node_type_def node_attrs_add_node_k)

lemma has_node_add_node [simp]:
  "has_node (add_node n t l G) m = (m = n \<or> has_node G m)"
  by (simp add: has_node_def node_attrs_add_node)

lemma has_node_add_node_k [simp]:
  "has_node (add_node_k n t l k G) m = (m = n \<or> has_node G m)"
  by (simp add: has_node_def node_attrs_add_node_k)

lemma edges_touch_node [simp]: "edges (touch_node n G) = edges G"
  by (simp add: touch_node_def)

lemma node_attrs_touch_node:
  "node_attrs (touch_node n G) m =
     (if m = n \<and> \<not> has_node G n then Some no_attrs else node_attrs G m)"
  by (auto simp: touch_node_def node_attrs_def has_node_def map_add_def split: option.splits)

lemma has_node_touch_node [simp]:
  "has_node (touch_node n G) m = (m = n \<or> has_node G m)"
  by (auto simp: has_node_def node_attrs_touch_node)

lemma node_type_touch_node [simp]: "node_type (touch_node n G) m = node_type G m"
  by (auto simp: node_type_def node_attrs_touch_node has_node_def no_attrs_def)

lemma node_label_touch_node [simp]: "node_label (touch_node n G) m = node_label G m"
  by (auto simp: node_label_def node_attrs_touch_node has_node_def no_attrs_def)

lemma has_edge_touch_node [simp]: "has_edge (touch_node n G) u v = has_edge G u v"
  by (simp add: has_edge_def)

lemma has_edge_add_node [simp]: "has_edge (add_node n t l G) u v = has_edge G u v"
  by (simp add: has_edge_def)

lemma has_edge_add_node_k [simp]: "has_edge (add_node_k n t l k G) u v = has_edge G u v"
  by (simp add: has_edge_def)

lemma edges_add_edge:
  "edges (add_edge u v G) = (if has_edge G u v then edges G else edges G @ [(u, v)])"
  by (simp add: add_edge_def Let_def)

lemma has_edge_add_edge [simp]:
  "has_edge (add_edge u v G) a b = (has_edge G a b \<or> (a = u \<and> b = v) \<or> (a = v \<and> b = u))"
  by (auto simp: has_edge_def edges_add_edge)

lemma node_attrs_add_edge:
  "node_attrs (add_edge u v G) m = node_attrs (touch_node v (touch_node u G)) m"
  by (simp add: add_edge_def Let_def node_attrs_def)

lemma node_type_add_edge [simp]: "node_type (add_edge u v G) m = node_type G m"
  using node_type_touch_node by (simp add: node_type_def node_attrs_add_edge)

lemma node_label_add_edge [simp]: "node_label (add_edge u v G) m = node_label G m"
  using node_label_touch_node by (simp add: node_label_def node_attrs_add_edge)

lemma has_node_add_edge [simp]:
  "has_node (add_edge u v G) m = (m = u \<or> m = v \<or> has_node G m)"
  using has_node_touch_node by (auto simp: has_node_def node_attrs_add_edge)

lemma incident_add_node [simp]: "incident (add_node n t l G) m = incident G m"
  by (simp add: incident_def)

lemma incident_add_node_k [simp]: "incident (add_node_k n t l k G) m = incident G m"
  by (simp add: incident_def)

lemma incident_add_edge_other [simp]:
  "u \<noteq> m \<Longrightarrow> v \<noteq> m \<Longrightarrow> incident (add_edge u v G) m = incident G m"
  by (simp add: incident_def edges_add_edge)

lemma has_edge_add_edges_from [simp]:
  "has_edge (add_edges_from ns v G) a b =
     (has_edge G a b \<or> (a \<in> set ns \<and> b = v) \<or> (a = v \<and> b \<in> set ns))"
  by (induction ns arbitrary: G) auto

lemma node_type_add_edges_from [simp]: "node_type (add_edges_from ns v G) m = node_type G m"
  by (induction ns arbitrary: G) auto

lemma node_label_add_edges_from [simp]: "node_label (add_edges_from ns v G) m = node_label G m"
  by (induction ns arbitrary: G) auto

lemma incident_add_edges_from_other [simp]:
  "m \<notin> set ns \<Longrightarrow> v \<noteq> m \<Longrightarrow> incident (add_edges_from ns v G) m = incident G m"
  by (induction ns arbitrary: G) auto

lemma has_node_add_edges_from:
  "has_node G m \<Longrightarrow> has_node (add_edges_from ns v G) m"
  by (induction ns arbitrary: G) simp_all

lemma has_edge_link_last [simp]:
  "has_edge (link_last lst v G) a b =
     (has_edge G a b \<or> (a \<in> set (ref_nodes lst) \<and> b = v) \<or> (a = v \<and> b \<in> set (ref_nodes lst)))"
  by (cases lst) auto

lemma node_type_link_last [simp]: "node_type (link_last lst v G) m = node_type G m"
  by (cases lst) auto

lemma node_label_link_last [simp]: "node_label (link_last lst v G) m = node_label G m"
  by (cases lst) auto

lemma has_node_link_last:
  "has_node G m \<Longrightarrow> has_node (link_last lst v G) m"
  by (cases lst) (simp_all add: has_node_add_edges_from)

lemma incident_link_last_other [simp]:
  "m \<notin> set (ref_nodes lst) \<Longrightarrow> v \<noteq> m \<Longrightarrow> incident (link_last lst v G) m = incident G m"
  by (cases lst) auto

section \<open>Properties of the encoders\<close>

lemma add_routers_name_absent:
  "x \<notin> router_name ` set rs \<Longrightarrow> fst (add_routers rs (m, G)) x = m x"
  by (induction rs arbitrary: m G) simp_all

lemma name2router_absent:
  "x \<notin> router_name ` set (routers nt) \<Longrightarrow> fst (network_graph nt) x = None"
  using add_routers_name_absent [of x "routers nt" Map.empty empty_graph]
  by (auto simp: network_graph_def split: prod.splits)

lemma path_step_result:
  assumes "path_step n2r a (G, lst) = Inr (G', lst')"
  shows "lst' = Single (KAtom a)"
    and "l \<in> set (ref_nodes lst) \<Longrightarrow> has_edge G' l (KAtom a)"
    and "has_edge G u v \<Longrightarrow> has_edge G' u v"
  using assms by (cases a; auto simp: Let_def split: option.splits if_splits)+

lemma path_loop_edges_mono:
  "path_loop n2r atoms (G, lst) = Inr (G', lst') \<Longrightarrow> has_edge G u v \<Longrightarrow> has_edge G' u v"
proof (induction atoms arbitrary: G lst)
  case Nil
  then show ?case by simp
next
  case (Cons a atoms)
  from Cons.prems(1) obtain G1 l1 where
    st: "path_step n2r a (G, lst) = Inr (G1, l1)" and
    rest: "path_loop n2r atoms (G1, l1) = Inr (G', lst')"
    by (auto split: sum.splits)
  from path_step_result(3) [OF st Cons.prems(2)] have "has_edge G1 u v" .
  with Cons.IH [OF rest] show ?case .
qed

lemma path_loop_last:
  "atoms \<noteq> [] \<Longrightarrow> path_loop n2r atoms (G, lst) = Inr (G', lst')
     \<Longrightarrow> lst' = Single (KAtom (last atoms))"
proof (induction atoms arbitrary: G lst)
  case Nil
  then show ?case by simp
next
  case (Cons a atoms)
  from Cons.prems(2) obtain G1 l1 where
    st: "path_step n2r a (G, lst) = Inr (G1, l1)" and
    rest: "path_loop n2r atoms (G1, l1) = Inr (G', lst')"
    by (auto split: sum.splits)
  show ?case
  proof (cases atoms)
    case Nil
    with rest path_step_result(1) [OF st] show ?thesis by simp
  next
    case (Cons b bs)
    with Cons.IH [OF _ rest] show ?thesis by simp
  qed
qed


lemma build_loop_simple_then_quantified:
  "isl (build_loop la (pre @ ASimpleAtom i s # AQuantifiedAtom j inner q # post) st)"
proof (induction pre arbitrary: la st)
  case Nil
  obtain G ln par bn where st: "st = (G, ln, par, bn)" by (cases st) auto
  show ?case
  proof (cases "build_step la (ASimpleAtom i s) st")
    case (Inl e)
    then show ?thesis by simp
  next
    case (Inr st')
    obtain G' ln' par' bn' where "st' = (G', ln', par', bn')" by (cases st') auto
    with Inr show ?thesis by simp
  qed
next
  case (Cons a pre)
  show ?case
  proof (cases "build_step la a st")
    case (Inl e)
    then show ?thesis by simp
  next
    case (Inr st')
    with Cons.IH [of "Some a" st'] show ?thesis by simp
  qed
qed

lemma build_repr_simple_then_quantified:
  "isl (build_labels_graph_repr G ln
          (Some (pre @ ASimpleAtom i s # AQuantifiedAtom j inner q # post)))"
  using build_loop_simple_then_quantified [of None pre i s j inner q post "(G, ln, [], False)"]
  by (auto split: sum.splits)

lemma query_graph_constr_abort:
  assumes "\<And>G. isl (build_labels_graph_repr G (Single KQuery) (getConstructing q))"
  shows "isl (query_graph n2r q k G0)"
proof -
  let ?G2 = "add_node_k KQuery Query ''query'' k
               (ensure_label_nodes (ensure_label_nodes G0 (getConstructing q)) (getDestructing q))"
  from assms [of ?G2] obtain e where
    "build_labels_graph_repr ?G2 (Single KQuery) (getConstructing q) = Inl e"
    by (cases "build_labels_graph_repr ?G2 (Single KQuery) (getConstructing q)") auto
  then show ?thesis by (simp add: query_graph_def Let_def)
qed

lemma query_graph_destr_abort:
  assumes "\<And>G ln. isl (build_labels_graph_repr G ln (getDestructing q))"
  shows "isl (query_graph n2r q k G0)"
proof -
  let ?G2 = "add_node_k KQuery Query ''query'' k
               (ensure_label_nodes (ensure_label_nodes G0 (getConstructing q)) (getDestructing q))"
  show ?thesis
  proof (cases "build_labels_graph_repr ?G2 (Single KQuery) (getConstructing q)")
    case (Inl e)
    then show ?thesis by (simp add: query_graph_def Let_def)
  next
    case c: (Inr r)
    obtain G3 l3 where r: "r = (G3, l3)" by (cases r) auto
    show ?thesis
    proof (cases "path_loop n2r (getNetwork q) (G3, l3)")
      case (Inl e)
      with c r show ?thesis by (simp add: query_graph_def Let_def)
    next
      case p: (Inr r')
      obtain G4 l4 where r': "r' = (G4, l4)" by (cases r') auto
      from assms [of G4 l4] obtain e where
        "build_labels_graph_repr G4 l4 (getDestructing q) = Inl e"
        by (cases "build_labels_graph_repr G4 l4 (getDestructing q)") auto
      with c r p r' show ?thesis by (simp add: query_graph_def Let_def)
    qed
  qed
qed

lemma mpls2graph_abort:
  "(\<And>n2r G0. isl (query_graph n2r q k G0)) \<Longrightarrow> isl (mpls2graph nt q k)"
  by (auto simp: mpls2graph_def split: prod.splits sum.splits)

section \<open>Claims about the label-pattern encoder\<close>

text \<open>
  Claim C7. In the label-pattern encoder, a one-or-more-quantified atom (whatever it wraps,
  so in particular one that is not an "any" atom) that immediately follows a plain label atom
  raises the error "Case not covered by code": the loop step itself returns that error, the
  encoder returns an error for every pattern that contains such a pair, whatever precedes
  and follows it and whatever the graph and the start node are, and \<open>mpls2graph\<close> returns
  an error, and no graph, when the constructing or the destructing pattern contains such a
  pair.
\<close>

theorem one_or_more_after_plain_label_aborts:
  "build_step (Some (ASimpleAtom i s)) (AQuantifiedAtom j inner AOneOrMoreQuantifier)
       (G, ln, par, bn) = Inl CaseNotCovered
   \<and> isl (build_labels_graph_repr G ln
            (Some (pre @ ASimpleAtom i s # AQuantifiedAtom j inner AOneOrMoreQuantifier # post)))
   \<and> (getConstructing q =
          Some (pre @ ASimpleAtom i s # AQuantifiedAtom j inner AOneOrMoreQuantifier # post)
        \<or> getDestructing q =
          Some (pre @ ASimpleAtom i s # AQuantifiedAtom j inner AOneOrMoreQuantifier # post)
       \<longrightarrow> isl (mpls2graph nt q k))"
proof (intro conjI impI)
  show "build_step (Some (ASimpleAtom i s)) (AQuantifiedAtom j inner AOneOrMoreQuantifier)
       (G, ln, par, bn) = Inl CaseNotCovered"
    by simp
  show "isl (build_labels_graph_repr G ln
            (Some (pre @ ASimpleAtom i s # AQuantifiedAtom j inner AOneOrMoreQuantifier # post)))"
    by (rule build_repr_simple_then_quantified)
  assume "getConstructing q =
          Some (pre @ ASimpleAtom i s # AQuantifiedAtom j inner AOneOrMoreQuantifier # post)
        \<or> getDestructing q =
          Some (pre @ ASimpleAtom i s # AQuantifiedAtom j inner AOneOrMoreQuantifier # post)"
  then show "isl (mpls2graph nt q k)"
  proof
    assume c: "getConstructing q =
          Some (pre @ ASimpleAtom i s # AQuantifiedAtom j inner AOneOrMoreQuantifier # post)"
    have "isl (build_labels_graph_repr G1 (Single KQuery) (getConstructing q))" for G1
      unfolding c by (rule build_repr_simple_then_quantified)
    then show ?thesis
      by (intro mpls2graph_abort query_graph_constr_abort)
  next
    assume d: "getDestructing q =
          Some (pre @ ASimpleAtom i s # AQuantifiedAtom j inner AOneOrMoreQuantifier # post)"
    have "isl (build_labels_graph_repr G1 l1 (getDestructing q))" for G1 l1
      unfolding d by (rule build_repr_simple_then_quantified)
    then show ?thesis
      by (intro mpls2graph_abort query_graph_destr_abort)
  qed
qed

theorem one_or_more_after_plain_label_aborts_witness:
  "isl (mpls2graph no_net plus_after_plain_query 0)
   \<and> mpls2graph no_net plus_after_plain_query 0 = Inl CaseNotCovered"
proof
  show "isl (mpls2graph no_net plus_after_plain_query 0)"
    using one_or_more_after_plain_label_aborts
      [of 1 "''a''" 2 "ASimpleAtom 3 ''b''" empty_graph "Single KQuery" "[]" False "[]" "[]"
          plus_after_plain_query no_net 0]
    by (simp add: plus_after_plain_query_def)
  show "mpls2graph no_net plus_after_plain_query 0 = Inl CaseNotCovered"
    by (simp add: mpls2graph_def network_graph_def query_graph_def no_net_def
        plus_after_plain_query_def Let_def symbol_label_def)
qed

text \<open>
  Claim C8 (as amended). In the label-pattern encoder, a quantified "any" atom with a
  zero-or-more quantifier creates a ZeroOrMore node (display label \<open>atom:label:.*\<close>), adds
  an edge from the current node to it and makes it the current node, without error and
  without touching the pending branch, whenever the previous atom is not a plain label atom
  and the current node is one node. Right after a plain label atom the step raises
  "Case not covered by code" instead.
\<close>

theorem zero_or_more_any_step:
  "(\<not> last_is_simple lastatom \<longrightarrow>
      (\<exists>G'. build_step lastatom (any_star i j) (G, Single u, par, bn)
               = Inr (G', Single (KAtom (any_star i j)), par, bn)
           \<and> node_type G' (KAtom (any_star i j)) = Some ZeroOrMore
           \<and> node_label G' (KAtom (any_star i j)) = Some ''atom:label:.*''
           \<and> has_edge G' u (KAtom (any_star i j))
           \<and> (\<forall>a b. has_edge G' a b =
                 (has_edge G a b \<or> (a = u \<and> b = KAtom (any_star i j))
                    \<or> (a = KAtom (any_star i j) \<and> b = u)))))
   \<and> (last_is_simple lastatom \<longrightarrow>
        build_step lastatom (any_star i j) (G, ln, par, bn) = Inl CaseNotCovered)"
  by simp

theorem zero_or_more_any_step_witness:
  "(\<exists>G'. build_step None (any_star 2 3) (empty_graph, Single KQuery, [], False)
               = Inr (G', Single (KAtom (any_star 2 3)), [], False)
           \<and> node_type G' (KAtom (any_star 2 3)) = Some ZeroOrMore
           \<and> has_edge G' KQuery (KAtom (any_star 2 3)))
   \<and> build_step (Some (ASimpleAtom 1 ''a'')) (any_star 2 3)
        (empty_graph, Single KQuery, [], False) = Inl CaseNotCovered"
  using zero_or_more_any_step [of None 2 3 empty_graph KQuery "[]" False "Single KQuery"]
    zero_or_more_any_step [of "Some (ASimpleAtom 1 ''a'')" 2 3 empty_graph KQuery "[]" False
        "Single KQuery"]
  by simp

theorem zero_or_more_any_after_plain_label_counterexample:
  "mpls2graph no_net star_after_plain_query 0 = Inl CaseNotCovered"
  by (simp add: mpls2graph_def network_graph_def query_graph_def no_net_def
      star_after_plain_query_def Let_def symbol_label_def)

text \<open>
  Claim C5. In the router-path encoder a quantified "any" atom with a one-or-more quantifier
  yields a node tagged ZeroOrMore, and one with a zero-or-more quantifier yields a node tagged
  OneOrMore. The step never fails; the edges of the graph afterwards are those from before
  and one edge between every node of \<open>last\<close> and the new node; \<open>last\<close> becomes the new node.
  The label-pattern encoder tags the other way round (where it accepts the atom, that is,
  not right after a plain label atom): one-or-more gives OneOrMore, zero-or-more gives
  ZeroOrMore.
\<close>

theorem path_quantified_any_tags:
  "(\<exists>G'. path_step n2r (any_plus i j) (G, lst) = Inr (G', Single (KAtom (any_plus i j)))
        \<and> node_type G' (KAtom (any_plus i j)) = Some ZeroOrMore
        \<and> (\<forall>l \<in> set (ref_nodes lst). has_edge G' l (KAtom (any_plus i j)))
        \<and> (\<forall>a b. has_edge G' a b =
              (has_edge G a b \<or> (a \<in> set (ref_nodes lst) \<and> b = KAtom (any_plus i j))
                 \<or> (a = KAtom (any_plus i j) \<and> b \<in> set (ref_nodes lst)))))
   \<and> (\<exists>G'. path_step n2r (any_star i j) (G, lst) = Inr (G', Single (KAtom (any_star i j)))
        \<and> node_type G' (KAtom (any_star i j)) = Some OneOrMore
        \<and> (\<forall>l \<in> set (ref_nodes lst). has_edge G' l (KAtom (any_star i j)))
        \<and> (\<forall>a b. has_edge G' a b =
              (has_edge G a b \<or> (a \<in> set (ref_nodes lst) \<and> b = KAtom (any_star i j))
                 \<or> (a = KAtom (any_star i j) \<and> b \<in> set (ref_nodes lst)))))
   \<and> (\<not> last_is_simple lastatom \<longrightarrow>
        (\<exists>G'. build_step lastatom (any_plus i j) (G, Single u, par, bn)
                 = Inr (G', Single (KAtom (any_plus i j)), par, bn)
             \<and> node_type G' (KAtom (any_plus i j)) = Some OneOrMore)
      \<and> (\<exists>G'. build_step lastatom (any_star i j) (G, Single u, par, bn)
                 = Inr (G', Single (KAtom (any_star i j)), par, bn)
             \<and> node_type G' (KAtom (any_star i j)) = Some ZeroOrMore))"
  by (simp add: Let_def)

theorem path_quantified_any_tags_witness:
  "(\<exists>G'. path_step Map.empty (any_plus 1 2) (empty_graph, Multi [KQuery, KStr ''empty''])
            = Inr (G', Single (KAtom (any_plus 1 2)))
        \<and> node_type G' (KAtom (any_plus 1 2)) = Some ZeroOrMore
        \<and> has_edge G' KQuery (KAtom (any_plus 1 2))
        \<and> has_edge G' (KStr ''empty'') (KAtom (any_plus 1 2)))
   \<and> (\<exists>G'. path_step Map.empty (any_star 1 2) (empty_graph, Multi [KQuery, KStr ''empty''])
            = Inr (G', Single (KAtom (any_star 1 2)))
        \<and> node_type G' (KAtom (any_star 1 2)) = Some OneOrMore
        \<and> has_edge G' KQuery (KAtom (any_star 1 2))
        \<and> has_edge G' (KStr ''empty'') (KAtom (any_star 1 2)))
   \<and> (\<exists>G'. build_step None (any_plus 1 2) (empty_graph, Single KQuery, [], False)
                 = Inr (G', Single (KAtom (any_plus 1 2)), [], False)
             \<and> node_type G' (KAtom (any_plus 1 2)) = Some OneOrMore)
   \<and> (\<exists>G'. build_step None (any_star 1 2) (empty_graph, Single KQuery, [], False)
                 = Inr (G', Single (KAtom (any_star 1 2)), [], False)
             \<and> node_type G' (KAtom (any_star 1 2)) = Some ZeroOrMore)"
  using path_quantified_any_tags
    [of Map.empty 1 2 empty_graph "Multi [KQuery, KStr ''empty'']" None KQuery "[]" False]
  by (simp add: Let_def)

section \<open>Claims about the router-path encoder\<close>

text \<open>
  Claim C10. When the loop over a non-empty router-path pattern returns, \<open>last\<close> is a single
  node, the node of the pattern's final atom, whatever \<open>last\<close> was before; every node of the
  initial \<open>last\<close> (all nodes of an unmerged terminal list left by the constructing pattern)
  has an edge to the node of the first router-path atom; and one step always leaves a
  single node in \<open>last\<close>. For the empty router-path pattern the loop hands \<open>last\<close> on
  unchanged, so only then can the destructing-pattern encoder get a list.
\<close>

theorem path_loop_last_single:
  "(atoms \<noteq> [] \<and> path_loop n2r atoms (G, lst) = Inr (G', lst') \<longrightarrow>
      lst' = Single (KAtom (last atoms))
      \<and> (\<forall>l \<in> set (ref_nodes lst). has_edge G' l (KAtom (hd atoms))))
   \<and> (path_step n2r a (G, lst) = Inr (G', lst') \<longrightarrow> lst' = Single (KAtom a))
   \<and> path_loop n2r [] (G, lst) = Inr (G, lst)"
proof (intro conjI impI ballI)
  assume h: "atoms \<noteq> [] \<and> path_loop n2r atoms (G, lst) = Inr (G', lst')"
  then show "lst' = Single (KAtom (last atoms))"
    using path_loop_last by blast
next
  fix l
  assume h: "atoms \<noteq> [] \<and> path_loop n2r atoms (G, lst) = Inr (G', lst')"
    and l: "l \<in> set (ref_nodes lst)"
  from h obtain b bs where atoms: "atoms = b # bs" by (cases atoms) auto
  with h obtain G1 l1 where
    st: "path_step n2r b (G, lst) = Inr (G1, l1)" and
    rest: "path_loop n2r bs (G1, l1) = Inr (G', lst')"
    by (auto split: sum.splits)
  from path_step_result(2) [OF st l] have "has_edge G1 l (KAtom b)" .
  with path_loop_edges_mono [OF rest] have "has_edge G' l (KAtom b)" .
  with atoms show "has_edge G' l (KAtom (hd atoms))" by simp
next
  assume "path_step n2r a (G, lst) = Inr (G', lst')"
  then show "lst' = Single (KAtom a)" by (rule path_step_result(1))
next
  show "path_loop n2r [] (G, lst) = Inr (G, lst)" by simp
qed

theorem path_loop_last_single_witness:
  "(\<exists>G'. path_loop Map.empty [AAnyAtom 1, any_plus 2 3]
            (empty_graph, Multi [KStr ''a'', KStr ''b''])
          = Inr (G', Single (KAtom (any_plus 2 3)))
        \<and> has_edge G' (KStr ''a'') (KAtom (AAnyAtom 1))
        \<and> has_edge G' (KStr ''b'') (KAtom (AAnyAtom 1)))
   \<and> path_loop Map.empty [] (empty_graph, Multi [KStr ''a'', KStr ''b''])
       = Inr (empty_graph, Multi [KStr ''a'', KStr ''b''])"
proof -
  obtain G' where
    run: "path_loop Map.empty [AAnyAtom 1, any_plus 2 3]
            (empty_graph, Multi [KStr ''a'', KStr ''b''])
          = Inr (G', Single (KAtom (any_plus 2 3)))"
    by (simp add: Let_def)
  from path_loop_last_single
    [of "[AAnyAtom 1, any_plus 2 3]" Map.empty empty_graph "Multi [KStr ''a'', KStr ''b'']"
        G' "Single (KAtom (any_plus 2 3))"] run
  have "has_edge G' (KStr ''a'') (KAtom (AAnyAtom 1))
        \<and> has_edge G' (KStr ''b'') (KAtom (AAnyAtom 1))"
    by simp
  with run show ?thesis by simp
qed

text \<open>
  Claim C2 (as amended). In the router-path encoder, for every plain router-name atom whose
  (stripped) name is not the name of a router of the network model, the step creates a
  placeholder node keyed by that name, typed Router and displayed as the name, creates the
  atom's QueryAtom node, and adds an edge between the atom's node and the placeholder.
\<close>

theorem unknown_router_placeholder:
  assumes "strip s \<notin> router_name ` set (routers nt)"
  shows "\<exists>G'. path_step (fst (network_graph nt)) (ASimpleAtom i s) (G, lst)
                 = Inr (G', Single (KAtom (ASimpleAtom i s)))
             \<and> node_type G' (KStr (strip s)) = Some Router
             \<and> node_label G' (KStr (strip s)) = Some (strip s)
             \<and> node_type G' (KAtom (ASimpleAtom i s)) = Some QueryAtom
             \<and> node_label G' (KAtom (ASimpleAtom i s)) = Some (''atom:router:'' @ strip s)
             \<and> has_edge G' (KAtom (ASimpleAtom i s)) (KStr (strip s))"
  using name2router_absent [OF assms] by (simp add: Let_def)

theorem unknown_router_placeholder_witness:
  "\<exists>G'. path_step (fst (network_graph ex_net)) (ASimpleAtom 1 ''R9'')
            (empty_graph, Single (KStr ''empty''))
          = Inr (G', Single (KAtom (ASimpleAtom 1 ''R9'')))
      \<and> node_type G' (KStr ''R9'') = Some Router
      \<and> node_label G' (KStr ''R9'') = Some ''R9''
      \<and> node_type G' (KAtom (ASimpleAtom 1 ''R9'')) = Some QueryAtom
      \<and> node_label G' (KAtom (ASimpleAtom 1 ''R9'')) = Some (''atom:router:'' @ ''R9'')
      \<and> has_edge G' (KAtom (ASimpleAtom 1 ''R9'')) (KStr ''R9'')"
proof -
  have s: "strip ''R9'' = ''R9''"
    by (simp add: strip_def is_space_def)
  have "strip ''R9'' \<notin> router_name ` set (routers ex_net)"
    by (simp add: s ex_net_def ex_R1_def ex_R2_def)
  from unknown_router_placeholder
    [OF this, of 1 empty_graph "Single (KStr ''empty'')"]
  show ?thesis by (simp only: s)
qed

theorem unknown_router_placeholder_counterexample:
  "\<not> isl (mpls2graph no_net unknown_query 0)
   \<and> has_edge (projr (mpls2graph no_net unknown_query 0))
        (KAtom (ASimpleAtom 1 ''R9'')) (KStr ''R9'')
   \<and> node_label (projr (mpls2graph no_net unknown_query 0)) (KStr ''R9'') = Some ''R9''
   \<and> node_type (projr (mpls2graph no_net unknown_query 0)) (KStr ''R9'') = Some Router
   \<and> node_type (projr (mpls2graph no_net unknown_query 0)) (KStr ''R9'') \<noteq> Some Label"
  by (simp add: mpls2graph_def network_graph_def query_graph_def no_net_def unknown_query_def
      Let_def strip_def is_space_def)

lemma has_edge_empty_graph [simp]: "has_edge empty_graph u v = False"
  by (simp add: has_edge_def empty_graph_def)

lemma has_node_empty_graph [simp]: "has_node empty_graph n = False"
  by (simp add: has_node_def node_attrs_def empty_graph_def)

lemma node_type_empty_graph [simp]: "node_type empty_graph n = None"
  by (simp add: node_type_def node_attrs_def empty_graph_def)

lemma incident_empty_graph [simp]: "incident empty_graph n = []"
  by (simp add: incident_def empty_graph_def)

text \<open>
  Claim C1 (as amended). For a constructing pattern that consists of a one-or-more-quantified
  plain atom \<open>a\<close> immediately followed by a plain atom \<open>b\<close>, encoded from a single start
  node in a graph that has both labels registered, the label-pattern encoder adds exactly
  four edges: between \<open>a\<close>'s node and its label, between the start node and \<open>a\<close>'s node,
  between \<open>b\<close>'s node and its label, and between the start node and \<open>b\<close>'s node. So \<open>b\<close>'s
  node gets an edge from the node preceding \<open>a\<close>, and none from \<open>a\<close>'s node; the encoder
  returns the two nodes as an unmerged terminal list.
\<close>

theorem plus_then_plain_edges:
  assumes "has_node G (KLabel (symbol_label sa))"
    and "has_node G (KLabel (symbol_label sb))"
  shows "\<exists>G'. build_labels_graph_repr G (Single u)
                 (Some [AQuantifiedAtom q (ASimpleAtom i sa) AOneOrMoreQuantifier,
                        ASimpleAtom j sb])
                 = Inr (G', Multi [KAtom (ASimpleAtom i sa), KAtom (ASimpleAtom j sb)])
             \<and> has_edge G' u (KAtom (ASimpleAtom j sb))
             \<and> (\<forall>x y. has_edge G' x y =
                   (has_edge G x y
                    \<or> (x = KAtom (ASimpleAtom i sa) \<and> y = KLabel (symbol_label sa))
                    \<or> (x = KLabel (symbol_label sa) \<and> y = KAtom (ASimpleAtom i sa))
                    \<or> (x = u \<and> y = KAtom (ASimpleAtom i sa))
                    \<or> (x = KAtom (ASimpleAtom i sa) \<and> y = u)
                    \<or> (x = KAtom (ASimpleAtom j sb) \<and> y = KLabel (symbol_label sb))
                    \<or> (x = KLabel (symbol_label sb) \<and> y = KAtom (ASimpleAtom j sb))
                    \<or> (x = u \<and> y = KAtom (ASimpleAtom j sb))
                    \<or> (x = KAtom (ASimpleAtom j sb) \<and> y = u)))
             \<and> (has_edge G' (KAtom (ASimpleAtom i sa)) (KAtom (ASimpleAtom j sb)) =
                   (has_edge G (KAtom (ASimpleAtom i sa)) (KAtom (ASimpleAtom j sb))
                    \<or> u = KAtom (ASimpleAtom i sa) \<or> u = KAtom (ASimpleAtom j sb)))"
  using assms by (auto simp: Let_def)

theorem plus_then_plain_edges_witness:
  "\<exists>G'. build_labels_graph_repr ab_start (Single KQuery)
          (Some [AQuantifiedAtom 1 (ASimpleAtom 2 ''a'') AOneOrMoreQuantifier,
                 ASimpleAtom 3 ''b''])
          = Inr (G', Multi [KAtom (ASimpleAtom 2 ''a''), KAtom (ASimpleAtom 3 ''b'')])
      \<and> has_edge G' KQuery (KAtom (ASimpleAtom 3 ''b''))
      \<and> \<not> has_edge G' (KAtom (ASimpleAtom 2 ''a'')) (KAtom (ASimpleAtom 3 ''b''))"
proof -
  have a: "has_node ab_start (KLabel (symbol_label ''a''))"
    and b: "has_node ab_start (KLabel (symbol_label ''b''))"
    by (simp_all add: ab_start_def ab_pattern_def symbol_label_def strip_def is_space_def)
  have ne: "\<not> has_edge ab_start (KAtom (ASimpleAtom 2 ''a'')) (KAtom (ASimpleAtom 3 ''b''))"
    by (simp add: ab_start_def ab_pattern_def symbol_label_def strip_def is_space_def)
  from plus_then_plain_edges [OF a b, of KQuery 1 2 3] obtain G' where
    "build_labels_graph_repr ab_start (Single KQuery)
          (Some [AQuantifiedAtom 1 (ASimpleAtom 2 ''a'') AOneOrMoreQuantifier,
                 ASimpleAtom 3 ''b''])
          = Inr (G', Multi [KAtom (ASimpleAtom 2 ''a''), KAtom (ASimpleAtom 3 ''b'')])"
    "has_edge G' KQuery (KAtom (ASimpleAtom 3 ''b''))"
    "has_edge G' (KAtom (ASimpleAtom 2 ''a'')) (KAtom (ASimpleAtom 3 ''b'')) =
       (has_edge ab_start (KAtom (ASimpleAtom 2 ''a'')) (KAtom (ASimpleAtom 3 ''b''))
        \<or> KQuery = KAtom (ASimpleAtom 2 ''a'') \<or> KQuery = KAtom (ASimpleAtom 3 ''b''))"
    by (elim exE conjE) (rule that)
  with ne show ?thesis by (intro exI [of _ G']) simp
qed

theorem plus_then_plain_edges_counterexample:
  "\<not> isl (build_labels_graph_repr ab_start (Single KQuery) (Some ab_pattern))
   \<and> snd (projr (build_labels_graph_repr ab_start (Single KQuery) (Some ab_pattern)))
       = Multi [KAtom (ASimpleAtom 2 ''a''), KAtom (ASimpleAtom 3 ''b'')]
   \<and> has_edge (fst (projr (build_labels_graph_repr ab_start (Single KQuery) (Some ab_pattern))))
       KQuery (KAtom (ASimpleAtom 3 ''b''))
   \<and> \<not> has_edge (fst (projr (build_labels_graph_repr ab_start (Single KQuery) (Some ab_pattern))))
       (KAtom (ASimpleAtom 2 ''a'')) (KAtom (ASimpleAtom 3 ''b''))
   \<and> \<not> isl (mpls2graph no_net ab_query 0)
   \<and> \<not> has_edge (projr (mpls2graph no_net ab_query 0))
       (KAtom (ASimpleAtom 2 ''a'')) (KAtom (ASimpleAtom 3 ''b''))"
  by (simp add: mpls2graph_def network_graph_def query_graph_def no_net_def ab_query_def
      ab_start_def ab_pattern_def Let_def symbol_label_def strip_def is_space_def)

section \<open>Registered labels and the assertion\<close>

lemma ensure_atoms_has_node:
  "has_node G n \<Longrightarrow> has_node (ensure_atoms atoms G) n"
  by (induction atoms G rule: ensure_atoms.induct) simp_all

lemma ensure_label_nodes_has_node:
  "has_node G n \<Longrightarrow> has_node (ensure_label_nodes G st) n"
  by (cases st) (simp_all add: ensure_atoms_has_node)

lemma atom_registered_mono:
  "atom_registered G a \<Longrightarrow> (\<And>n. has_node G n \<Longrightarrow> has_node G' n) \<Longrightarrow> atom_registered G' a"
  by (induction G a rule: atom_registered.induct) simp_all

lemma ensure_atoms_head_registered:
  "atom_registered (ensure_atoms (a # atoms) G) a"
proof (induction G a rule: atom_registered.induct)
  case (1 G i s)
  show ?case by (simp add: ensure_atoms_has_node)
next
  case (2 G i i' s q)
  show ?case by (simp add: ensure_atoms_has_node)
qed simp_all

lemma ensure_atoms_cons:
  "ensure_atoms (a # atoms) G = ensure_atoms atoms (ensure_atoms [a] G)"
proof (cases a)
  case (AQuantifiedAtom i inner q)
  then show ?thesis by (cases inner) simp_all
qed simp_all

lemma ensure_atoms_registers:
  "a \<in> set atoms \<Longrightarrow> atom_registered (ensure_atoms atoms G) a"
proof (induction atoms arbitrary: G)
  case Nil
  then show ?case by simp
next
  case (Cons b bs)
  show ?case
  proof (cases "a = b")
    case True
    then show ?thesis by (simp only: ensure_atoms_head_registered)
  next
    case False
    with Cons.prems have "a \<in> set bs" by simp
    from Cons.IH [OF this, of "ensure_atoms [b] G"] show ?thesis
      by (simp only: ensure_atoms_cons [of b bs G])
  qed
qed

lemma ensure_label_nodes_registers:
  "pattern_registered (ensure_label_nodes G st) st"
  by (cases st) (simp_all add: list_all_iff ensure_atoms_registers)

lemma pattern_registered_mono:
  "pattern_registered G st \<Longrightarrow> (\<And>n. has_node G n \<Longrightarrow> has_node G' n)
     \<Longrightarrow> pattern_registered G' st"
  by (cases st) (auto simp: list_all_iff intro: atom_registered_mono)

lemma ensure_atoms_label_typed:
  "(has_node G (KLabel l) \<longrightarrow> node_type G (KLabel l) = Some Label)
   \<Longrightarrow> (has_node (ensure_atoms atoms G) (KLabel l)
          \<longrightarrow> node_type (ensure_atoms atoms G) (KLabel l) = Some Label)"
  by (induction atoms G rule: ensure_atoms.induct) simp_all

lemma ensure_label_nodes_label_typed:
  "(has_node G (KLabel l) \<longrightarrow> node_type G (KLabel l) = Some Label)
   \<Longrightarrow> (has_node (ensure_label_nodes G st) (KLabel l)
          \<longrightarrow> node_type (ensure_label_nodes G st) (KLabel l) = Some Label)"
  by (cases st) (simp_all add: ensure_atoms_label_typed)

lemma atom_label_to_node_has_node:
  "atom_label_to_node G a = Inr (G', k) \<Longrightarrow> has_node G n \<Longrightarrow> has_node G' n"
  by (cases a) (auto split: if_splits)

lemma atom_label_to_node_no_assert:
  "atom_registered G a \<Longrightarrow> atom_label_to_node G a \<noteq> Inl AssertionError"
  by (cases a) simp_all

lemma atom_label_to_node_inner_no_assert:
  "atom_registered G (AQuantifiedAtom i inner q)
     \<Longrightarrow> atom_label_to_node G inner \<noteq> Inl AssertionError"
  by (cases inner) simp_all

lemma add_edge_ref_no_assert: "add_edge_ref ln v G \<noteq> Inl AssertionError"
  by (cases ln) simp_all

lemma add_edge_ref_has_node:
  "add_edge_ref ln v G = Inr G' \<Longrightarrow> has_node G n \<Longrightarrow> has_node G' n"
  by (cases ln) auto

lemma build_step_no_assert:
  assumes "atom_registered G a"
  shows "build_step la a (G, ln, par, bn) \<noteq> Inl AssertionError"
proof (cases a)
  case (ASimpleAtom i s)
  with assms show ?thesis
    by (auto simp: add_edge_ref_no_assert split: sum.splits prod.splits)
next
  case (AAnyAtom i)
  then show ?thesis
    by (auto simp: add_edge_ref_no_assert split: sum.splits prod.splits)
next
  case (AQuantifiedAtom i inner q)
  with assms have "atom_label_to_node G inner \<noteq> Inl AssertionError"
    by (simp add: atom_label_to_node_inner_no_assert)
  with AQuantifiedAtom show ?thesis
    by (auto simp: add_edge_ref_no_assert split: sum.splits prod.splits)
next
  case (AOtherAtom i)
  then show ?thesis by simp
qed

lemma build_step_has_node:
  assumes "build_step la a (G, ln, par, bn) = Inr (G', ln', par', bn')" and "has_node G n"
  shows "has_node G' n"
proof (cases a)
  case (ASimpleAtom i s)
  with assms show ?thesis
    by (auto simp: has_node_add_edges_from split: sum.splits prod.splits if_splits
        dest: add_edge_ref_has_node)
next
  case (AAnyAtom i)
  with assms show ?thesis
    by (auto simp: has_node_add_edges_from split: sum.splits prod.splits if_splits
        dest: add_edge_ref_has_node)
next
  case (AQuantifiedAtom i inner q)
  with assms show ?thesis
    by (auto split: sum.splits prod.splits if_splits
        dest: add_edge_ref_has_node atom_label_to_node_has_node)
next
  case (AOtherAtom i)
  with assms show ?thesis by simp
qed

lemma build_loop_has_node:
  "build_loop la atoms (G, ln, par, bn) = Inr (G', ln', par', bn') \<Longrightarrow> has_node G n
     \<Longrightarrow> has_node G' n"
proof (induction atoms arbitrary: la G ln par bn)
  case Nil
  then show ?case by simp
next
  case (Cons a atoms)
  from Cons.prems(1) obtain G1 l1 p1 b1 where
    st: "build_step la a (G, ln, par, bn) = Inr (G1, l1, p1, b1)" and
    rest: "build_loop (Some a) atoms (G1, l1, p1, b1) = Inr (G', ln', par', bn')"
    by (auto split: sum.splits)
  from build_step_has_node [OF st Cons.prems(2)] have "has_node G1 n" .
  from Cons.IH [OF rest this] show ?case .
qed

lemma build_loop_no_assert:
  "list_all (atom_registered G) atoms
     \<Longrightarrow> build_loop la atoms (G, ln, par, bn) \<noteq> Inl AssertionError"
proof (induction atoms arbitrary: la G ln par bn)
  case Nil
  then show ?case by simp
next
  case (Cons a atoms)
  from Cons.prems have a: "atom_registered G a" and r: "list_all (atom_registered G) atoms"
    by simp_all
  show ?case
  proof (cases "build_step la a (G, ln, par, bn)")
    case (Inl e)
    with build_step_no_assert [OF a, of la ln par bn] show ?thesis by simp
  next
    case (Inr st')
    obtain G1 l1 p1 b1 where st': "st' = (G1, l1, p1, b1)" by (cases st') auto
    have "has_node G1 n" if "has_node G n" for n
      using build_step_has_node Inr st' that by blast
    with r have "list_all (atom_registered G1) atoms"
      by (auto simp: list_all_iff intro: atom_registered_mono)
    from Cons.IH [OF this, of "Some a" l1 p1 b1] Inr st' show ?thesis by simp
  qed
qed

lemma build_repr_has_node:
  "build_labels_graph_repr G ln st = Inr (G', r) \<Longrightarrow> has_node G n \<Longrightarrow> has_node G' n"
proof (cases st)
  case None
  assume "build_labels_graph_repr G ln st = Inr (G', r)" "has_node G n"
  with None show ?thesis
    by (auto split: sum.splits dest: add_edge_ref_has_node)
next
  case (Some atoms)
  assume h: "build_labels_graph_repr G ln st = Inr (G', r)" "has_node G n"
  with Some obtain l1 p1 b1 where
    "build_loop None atoms (G, ln, [], False) = Inr (G', l1, p1, b1)"
    by (auto split: sum.splits)
  from build_loop_has_node [OF this h(2)] show ?thesis .
qed

lemma build_repr_no_assert:
  "pattern_registered G st \<Longrightarrow> build_labels_graph_repr G ln st \<noteq> Inl AssertionError"
proof (cases st)
  case None
  then show ?thesis
    using add_edge_ref_no_assert by (auto split: sum.splits)
next
  case (Some atoms)
  assume "pattern_registered G st"
  with Some have "list_all (atom_registered G) atoms" by simp
  from build_loop_no_assert [OF this, of None ln "[]" False] Some show ?thesis
    by (auto split: sum.splits)
qed

lemma path_step_has_node:
  "path_step n2r a (G, lst) = Inr (G', lst') \<Longrightarrow> has_node G n \<Longrightarrow> has_node G' n"
  by (cases a) (auto simp: Let_def has_node_link_last split: option.splits if_splits)

lemma path_step_no_assert: "path_step n2r a (G, lst) \<noteq> Inl AssertionError"
  by (cases a) (auto simp: Let_def split: option.splits)

lemma path_loop_has_node:
  "path_loop n2r atoms (G, lst) = Inr (G', lst') \<Longrightarrow> has_node G n \<Longrightarrow> has_node G' n"
proof (induction atoms arbitrary: G lst)
  case Nil
  then show ?case by simp
next
  case (Cons a atoms)
  from Cons.prems(1) obtain G1 l1 where
    st: "path_step n2r a (G, lst) = Inr (G1, l1)" and
    rest: "path_loop n2r atoms (G1, l1) = Inr (G', lst')"
    by (auto split: sum.splits)
  from path_step_has_node [OF st Cons.prems(2)] have "has_node G1 n" .
  from Cons.IH [OF rest this] show ?case .
qed

lemma path_loop_no_assert: "path_loop n2r atoms (G, lst) \<noteq> Inl AssertionError"
proof (induction atoms arbitrary: G lst)
  case Nil
  then show ?case by simp
next
  case (Cons a atoms)
  show ?case
  proof (cases "path_step n2r a (G, lst)")
    case (Inl e)
    with path_step_no_assert [of n2r a G lst] show ?thesis by simp
  next
    case (Inr st')
    obtain G1 l1 where "st' = (G1, l1)" by (cases st') auto
    with Inr Cons.IH [of G1 l1] show ?thesis by simp
  qed
qed

lemma query_graph_no_assert: "query_graph n2r q k G \<noteq> Inl AssertionError"
proof -
  let ?G1 = "ensure_label_nodes (ensure_label_nodes G (getConstructing q)) (getDestructing q)"
  let ?G2 = "add_node_k KQuery Query ''query'' k ?G1"
  have c1: "pattern_registered ?G1 (getConstructing q)"
    by (rule pattern_registered_mono [OF ensure_label_nodes_registers])
      (rule ensure_label_nodes_has_node)
  have d1: "pattern_registered ?G1 (getDestructing q)"
    by (rule ensure_label_nodes_registers)
  have c2: "pattern_registered ?G2 (getConstructing q)"
    by (rule pattern_registered_mono [OF c1]) simp
  have d2: "pattern_registered ?G2 (getDestructing q)"
    by (rule pattern_registered_mono [OF d1]) simp
  show ?thesis
  proof (cases "build_labels_graph_repr ?G2 (Single KQuery) (getConstructing q)")
    case (Inl e)
    with build_repr_no_assert [OF c2, of "Single KQuery"] show ?thesis
      by (simp add: query_graph_def Let_def)
  next
    case c: (Inr r)
    obtain G3 l3 where r: "r = (G3, l3)" by (cases r) auto
    show ?thesis
    proof (cases "path_loop n2r (getNetwork q) (G3, l3)")
      case (Inl e)
      with path_loop_no_assert [of n2r "getNetwork q" G3 l3] c r show ?thesis
        by (simp add: query_graph_def Let_def)
    next
      case p: (Inr r')
      obtain G4 l4 where r': "r' = (G4, l4)" by (cases r') auto
      have "has_node G4 n" if "has_node ?G2 n" for n
        using that build_repr_has_node c r path_loop_has_node p r' by blast
      from pattern_registered_mono [OF d2 this]
      have "pattern_registered G4 (getDestructing q)" .
      from build_repr_no_assert [OF this, of l4] c r p r' show ?thesis
        by (auto simp: query_graph_def Let_def split: sum.splits)
    qed
  qed
qed

lemma add_actions_no_assert: "add_actions pre j i acts lst G \<noteq> Inl AssertionError"
  by (induction pre j i acts lst G rule: add_actions.induct) simp_all

lemma add_rule_no_assert: "add_rule rname i r G \<noteq> Inl AssertionError"
  using add_actions_no_assert
  by (auto simp: add_rule_def Let_def split: sum.splits)

lemma add_destinations_no_assert: "add_destinations rname i dests G \<noteq> Inl AssertionError"
proof (induction dests arbitrary: i G)
  case Nil
  then show ?case by simp
next
  case (Cons d dests)
  show ?case
    using add_rule_no_assert Cons.IH
    by (auto split: sum.splits list.splits)
qed

lemma add_tables_no_assert: "add_tables tbls G \<noteq> Inl AssertionError"
proof (induction tbls arbitrary: G)
  case Nil
  then show ?case by simp
next
  case (Cons t tbls)
  obtain rtr tbl where "t = (rtr, tbl)" by (cases t) auto
  with add_destinations_no_assert Cons.IH show ?case
    by (auto split: sum.splits)
qed

lemma mpls2graph_no_assert: "mpls2graph nt q k \<noteq> Inl AssertionError"
  using add_tables_no_assert query_graph_no_assert
  by (auto simp: mpls2graph_def network_graph_def split: prod.splits sum.splits)

section \<open>Claims about the registration of labels\<close>

text \<open>
  Claim C6. Before the pattern encoders run, \<open>mpls2graph\<close> calls \<open>ensure_label_nodes\<close> on the
  constructing and on the destructing pattern. In the graph this leaves, the label of every
  plain atom and of every quantified plain atom of either pattern is a node, and one that was
  not a node before is typed Label. Hence the assertion of \<open>atom_label_to_node\<close> fails on no
  call: neither the query part nor \<open>mpls2graph\<close> as a whole ends in an assertion error,
  whatever the network and the query.
\<close>

theorem query_labels_registered:
  "pattern_registered
     (ensure_label_nodes (ensure_label_nodes G (getConstructing q)) (getDestructing q))
     (getConstructing q)
   \<and> pattern_registered
       (ensure_label_nodes (ensure_label_nodes G (getConstructing q)) (getDestructing q))
       (getDestructing q)
   \<and> (\<forall>l. \<not> has_node G (KLabel l)
          \<and> has_node
              (ensure_label_nodes (ensure_label_nodes G (getConstructing q)) (getDestructing q))
              (KLabel l)
        \<longrightarrow> node_type
              (ensure_label_nodes (ensure_label_nodes G (getConstructing q)) (getDestructing q))
              (KLabel l) = Some Label)
   \<and> query_graph n2r q k G \<noteq> Inl AssertionError
   \<and> mpls2graph nt q k \<noteq> Inl AssertionError"
proof (intro conjI allI impI)
  show "pattern_registered
     (ensure_label_nodes (ensure_label_nodes G (getConstructing q)) (getDestructing q))
     (getConstructing q)"
    by (rule pattern_registered_mono [OF ensure_label_nodes_registers])
      (rule ensure_label_nodes_has_node)
  show "pattern_registered
     (ensure_label_nodes (ensure_label_nodes G (getConstructing q)) (getDestructing q))
     (getDestructing q)"
    by (rule ensure_label_nodes_registers)
  show "query_graph n2r q k G \<noteq> Inl AssertionError"
    by (rule query_graph_no_assert)
  show "mpls2graph nt q k \<noteq> Inl AssertionError"
    by (rule mpls2graph_no_assert)
next
  fix l
  assume h: "\<not> has_node G (KLabel l)
          \<and> has_node
              (ensure_label_nodes (ensure_label_nodes G (getConstructing q)) (getDestructing q))
              (KLabel l)"
  from h have "has_node G (KLabel l) \<longrightarrow> node_type G (KLabel l) = Some Label" by simp
  from ensure_label_nodes_label_typed [OF ensure_label_nodes_label_typed [OF this]] h
  show "node_type
      (ensure_label_nodes (ensure_label_nodes G (getConstructing q)) (getDestructing q))
      (KLabel l) = Some Label"
    by simp
qed

theorem query_labels_registered_witness:
  "has_node
     (ensure_label_nodes (ensure_label_nodes empty_graph (getConstructing abc_query))
        (getDestructing abc_query))
     (KLabel (model_Label ''a''))
   \<and> has_node
     (ensure_label_nodes (ensure_label_nodes empty_graph (getConstructing abc_query))
        (getDestructing abc_query))
     (KLabel (model_Label ''b''))
   \<and> has_node
     (ensure_label_nodes (ensure_label_nodes empty_graph (getConstructing abc_query))
        (getDestructing abc_query))
     (KLabel (model_Label ''c''))
   \<and> node_type
     (ensure_label_nodes (ensure_label_nodes empty_graph (getConstructing abc_query))
        (getDestructing abc_query))
     (KLabel (model_Label ''c'')) = Some Label
   \<and> mpls2graph no_net abc_query 0 \<noteq> Inl AssertionError"
  using query_labels_registered [of empty_graph abc_query Map.empty 0 no_net]
  by (simp add: abc_query_def ab_pattern_def symbol_label_def strip_def is_space_def
      has_node_empty_graph)

section \<open>Claims about the query node\<close>

lemma incident_add_edge:
  "incident (add_edge u v G) m =
     (if has_edge G u v \<or> (u \<noteq> m \<and> v \<noteq> m) then incident G m else incident G m @ [(u, v)])"
  by (simp add: incident_def edges_add_edge)

text \<open>
  Claim C9 at the query \<open><> empty <.>\<close> on a network that has no router of the name
  \<open>empty\<close>. The constructing pattern is absent, so the Query node gets its one edge, to the
  node keyed by the string \<open>empty\<close>, created with type Label and display label
  \<open>label:empty\<close>. The router path then creates the placeholder of the unknown router under
  the same key: in the finished graph the only neighbour of the Query node is typed Router
  and displays \<open>empty\<close>.
\<close>

theorem empty_router_name_retags_sentinel:
  "\<not> isl (mpls2graph no_net empty_name_query 0)
   \<and> incident (projr (mpls2graph no_net empty_name_query 0)) KQuery = [(KQuery, KStr ''empty'')]
   \<and> node_type (projr (mpls2graph no_net empty_name_query 0)) (KStr ''empty'') = Some Router
   \<and> node_label (projr (mpls2graph no_net empty_name_query 0)) (KStr ''empty'') = Some ''empty''
   \<and> node_type (projr (mpls2graph no_net empty_name_query 0)) (KStr ''empty'') \<noteq> Some Label"
  by (simp add: mpls2graph_def network_graph_def query_graph_def no_net_def empty_name_query_def
      Let_def strip_def is_space_def incident_add_edge)

end
